theory Spec2Isabelle
  imports Complex_Main
begin

section \<open>Python values, exceptions and string primitives\<close>

text \<open>
  The repository consists of two Python modules, \<^verbatim>\<open>src/utils/evaluation.py\<close> and
  \<^verbatim>\<open>src/utils/langchain_evaluation.py\<close>. Every function in them builds a prompt, calls an
  external collaborator (a chat model, a retriever) and returns or prints what came back.
  The collaborators are parameters of the model; every call to one is recorded, with its
  arguments and its outcome, in a trace of events, and an exception is the \<open>Inl\<close>
  branch of a sum. Strings are byte lists; the newline byte never occurs inside a
  multi-byte UTF-8 sequence, so splitting and joining on it agree with Python's
  code-point strings.
\<close>

datatype exn = KeyError string | TypeError | Raised string

datatype pyval = PyNone | PyBool bool | PyStr string | PyDict "(string \<times> pyval) list"

text \<open>\<^verbatim>\<open>s.split(sep)\<close> for a one-character separator: the pieces between the separators,
  empty pieces included; the empty string gives one empty piece. The recursive call never
  returns the empty list, so the \<open>[]\<close> branch of the case is there for totality only.\<close>

fun split_on :: "char \<Rightarrow> string \<Rightarrow> string list" where
  "split_on c [] = [[]]"
| "split_on c (x # xs) =
     (if x = c then [] # split_on c xs
      else (case split_on c xs of [] \<Rightarrow> [[x]] | p # ps \<Rightarrow> (x # p) # ps))"

text \<open>\<^verbatim>\<open>sep.join(xs)\<close>.\<close>

fun join :: "string \<Rightarrow> string list \<Rightarrow> string" where
  "join sep [] = []"
| "join sep [x] = x"
| "join sep (x # y # ys) = x @ sep @ join sep (y # ys)"

text \<open>\<^verbatim>\<open>str(n)\<close> for an integer, as an f-string or a format field renders it: decimal
  digits, a minus sign for a negative number. \<open>digit_char\<close> is only ever applied to a
  number below ten.\<close>

definition digit_char :: "nat \<Rightarrow> char" where
  "digit_char d = ''0123456789'' ! d"

function str_nat :: "nat \<Rightarrow> string" where
  "str_nat n = (if n < 10 then [digit_char n] else str_nat (n div 10) @ [digit_char (n mod 10)])"
  by pat_completeness auto
termination
  by (relation "measure id") auto

declare str_nat.simps [simp del]

definition str_int :: "int \<Rightarrow> string" where
  "str_int i = (if i < 0 then CHR ''-'' # str_nat (nat (- i)) else str_nat (nat i))"

text \<open>Reading a decimal numeral back: the value of a string of digits, with an optional
  minus sign in front. It is used to state that \<open>str_int\<close> renders the number it is given.\<close>

definition decimal_nat :: "string \<Rightarrow> nat" where
  "decimal_nat ds = foldl (\<lambda>a c. 10 * a + (of_char c - 48)) 0 ds"

definition decimal_value :: "string \<Rightarrow> int" where
  "decimal_value s =
     (case s of
        [] \<Rightarrow> 0
      | c # ds \<Rightarrow> if c = CHR ''-'' then - int (decimal_nat ds) else int (decimal_nat s))"

text \<open>\<^verbatim>\<open>d[k]\<close> on a value: a dictionary without the key raises \<^verbatim>\<open>KeyError\<close>, a value that
  is not a dictionary (\<^verbatim>\<open>None\<close>, a boolean, a string indexed by a string) raises
  \<^verbatim>\<open>TypeError\<close>. A dictionary is an association list; the first binding of a key counts.\<close>

fun getitem :: "pyval \<Rightarrow> string \<Rightarrow> exn + pyval" where
  "getitem (PyDict kvs) k = (case map_of kvs k of None \<Rightarrow> Inl (KeyError k) | Some v \<Rightarrow> Inr v)"
| "getitem _ k = Inl TypeError"

section \<open>The external collaborators and the trace\<close>

text \<open>A chat-model handle as \<^verbatim>\<open>ChatOpenAI(model=..., temperature=..., top_p=...)\<close> builds
  it: configuration only, no call is made. The sampling parameters are the decimal literals
  of the source.\<close>

record chat_openai =
  model :: string
  temperature :: rat
  top_p :: "rat option"

datatype role = System | User

type_synonym message = "role \<times> string"

text \<open>A \<^verbatim>\<open>TypedDict\<close> schema: its class name and its fields, each with its type and its
  annotation text; and the arguments of \<^verbatim>\<open>with_structured_output\<close>.\<close>

datatype pytype = TStr | TBool

record typed_dict =
  td_name :: string
  td_fields :: "(string \<times> pytype \<times> string) list"

record structured_output =
  so_schema :: typed_dict
  so_method :: "string option"
  so_strict :: "bool option"

record document =
  page_content :: string

text \<open>The metric objects of the deepeval library that \<^verbatim>\<open>evaluation.py\<close> builds at import
  time.\<close>

datatype test_case_param = EXPECTED_OUTPUT | ACTUAL_OUTPUT

datatype metric =
    GEval string string "string list" "test_case_param list"
  | FaithfulnessMetric rat string bool
  | ContextualRelevancyMetric rat string bool
  | AnswerRelevancyMetric rat string bool

text \<open>One event per interaction with the outside: a plain chat completion (messages in,
  text out), a schema-constrained completion, a retriever call, a line handed to
  \<^verbatim>\<open>print\<close>, and a measurement by a deepeval metric.\<close>

datatype event =
    ChatInvoke chat_openai "message list" "exn + string"
  | StructuredInvoke chat_openai structured_output "message list" "exn + pyval"
  | RetrieverInvoke string "exn + document list"
  | Print string
  | MetricMeasure metric

text \<open>What a collaborator answers may depend on everything that happened before, so each
  one is a function of the trace so far and of its arguments. This covers a model that
  answers the same prompt differently on a second call.\<close>

record env =
  chat :: "event list \<Rightarrow> chat_openai \<Rightarrow> message list \<Rightarrow> exn + string"
  chat_structured ::
    "event list \<Rightarrow> chat_openai \<Rightarrow> structured_output \<Rightarrow> message list \<Rightarrow> exn + pyval"

type_synonym retriever = "event list \<Rightarrow> string \<Rightarrow> exn + document list"

section \<open>\<^verbatim>\<open>evaluation.py\<close>\<close>

text \<open>The four module-level names, bound once when the module is imported.\<close>

record evaluation_module =
  correctness_metric :: metric
  faithfullness_metric :: metric
  retrieval_relevance_metric :: metric
  answer_relevance_metric :: metric

definition module_load :: evaluation_module where
  "module_load =
     \<lparr>correctness_metric =
        GEval ''correctness'' ''gpt-4o-mini''
          [''Determine whether the actual output is factually correct based on the expected output.'']
          [EXPECTED_OUTPUT, ACTUAL_OUTPUT],
      faithfullness_metric = FaithfulnessMetric (7 / 10) ''gpt-4o-mini'' True,
      retrieval_relevance_metric = ContextualRelevancyMetric (7 / 10) ''gpt-4o-mini'' True,
      answer_relevance_metric = AnswerRelevancyMetric (7 / 10) ''gpt-4o-mini'' True\<rparr>"

text \<open>The state a call of \<^verbatim>\<open>rag_evaluation\<close> runs in: the trace and the module's globals.\<close>

record state =
  trace :: "event list"
  globals :: evaluation_module

definition print :: "string \<Rightarrow> state \<Rightarrow> state" where
  "print line s = s\<lparr>trace := trace s @ [Print line]\<rparr>"

text \<open>\<^verbatim>\<open>(prompt_template | llm | StrOutputParser()).invoke(...)\<close>: the formatted prompt goes to
  the model as one user message, and the text of the answer comes back.\<close>

definition chain_invoke :: "env \<Rightarrow> chat_openai \<Rightarrow> string \<Rightarrow> state \<Rightarrow> state \<times> (exn + string)" where
  "chain_invoke e cfg prompt s =
     (let r = chat e (trace s) cfg [(User, prompt)]
      in (s\<lparr>trace := trace s @ [ChatInvoke cfg [(User, prompt)] r]\<rparr>, r))"

definition retriever_invoke :: "retriever \<Rightarrow> string \<Rightarrow> state \<Rightarrow> state \<times> (exn + document list)" where
  "retriever_invoke retr query s =
     (let r = retr (trace s) query
      in (s\<lparr>trace := trace s @ [RetrieverInvoke query r]\<rparr>, r))"

definition llm :: chat_openai where
  "llm = \<lparr>model = ''gpt-4o-mini'', temperature = 0, top_p = None\<rparr>"

definition eval_prompt :: "string \<Rightarrow> string \<Rightarrow> string" where
  \<open>eval_prompt question context =
       ''\<newline>''
     @ ''    Evaluate the following retrieval results for the question.\<newline>''
     @ ''    Question: ''
     @ question
     @ ''\<newline>''
     @ ''    Retrieved Documents: ''
     @ context
     @ ''\<newline>''
     @ ''    \<newline>''
     @ ''    Rate on a scale of 1-5 (5 being the best) for:\<newline>''
     @ ''    1. Relevance: How relevant is the retrieved information to the question?\<newline>''
     @ ''    2. Completeness: Does the context contain all necessary information?\<newline>''
     @ ''    3. Conciseness: Is the retrieved context focused and free of irrelevant information?\<newline>''
     @ ''    \<newline>''
     @ ''    Provide ratings in JSON format:\<newline>''
     @ ''    ''\<close>

definition question_gen_prompt :: "int \<Rightarrow> string \<Rightarrow> string" where
  "question_gen_prompt num_questions topic =
     ''Generate '' @ str_int num_questions @ '' diverse test questions about about '' @ topic @ ''.''"

text \<open>The body of the \<^verbatim>\<open>for\<close> loop, for index \<open>i\<close> and question \<open>question\<close>. The local
  list \<^verbatim>\<open>results\<close> is passed through: the line that appends to it is commented out.\<close>

definition loop_body ::
  "env \<Rightarrow> retriever \<Rightarrow> int \<Rightarrow> nat \<Rightarrow> string \<Rightarrow> string list \<Rightarrow> state \<Rightarrow> state \<times> (exn + string list)" where
  "loop_body e retr num_questions i question results s =
     (case retriever_invoke retr question s of
        (s1, Inl err) \<Rightarrow> (s1, Inl err)
      | (s1, Inr context) \<Rightarrow>
          (let context_text = join ''\<newline>'' (map page_content context)
           in (case chain_invoke e llm (eval_prompt question context_text) s1 of
                 (s2, Inl err) \<Rightarrow> (s2, Inl err)
               | (s2, Inr eval_result) \<Rightarrow>
                   (let s3 = print (''Evaluated question '' @ str_int (int i + 1) @ ''/''
                                      @ str_int num_questions @ '':'') s2;
                        s4 = print (''Question: '' @ question) s3;
                        s5 = print (''Context: '' @ context_text) s4;
                        s6 = print (''Evaluation: '' @ eval_result) s5;
                        s7 = print ''-------------------\<newline>'' s6
                    in (s7, Inr results)))))"

fun eval_loop ::
  "env \<Rightarrow> retriever \<Rightarrow> int \<Rightarrow> (nat \<times> string) list \<Rightarrow> string list \<Rightarrow> state \<Rightarrow> state \<times> (exn + string list)" where
  "eval_loop e retr num_questions [] results s = (s, Inr results)"
| "eval_loop e retr num_questions ((i, question) # rest) results s =
     (case loop_body e retr num_questions i question results s of
        (s', Inl err) \<Rightarrow> (s', Inl err)
      | (s', Inr results') \<Rightarrow> eval_loop e retr num_questions rest results' s')"

text \<open>\<^verbatim>\<open>rag_evaluation(retriever, num_questions, eval_topic)\<close>. The function body ends after
  the loop (the \<^verbatim>\<open>return\<close> of the report is commented out), so a call that completes
  yields \<^verbatim>\<open>None\<close>.\<close>

definition rag_evaluation ::
  "env \<Rightarrow> retriever \<Rightarrow> int \<Rightarrow> string \<Rightarrow> state \<Rightarrow> state \<times> (exn + pyval)" where
  "rag_evaluation e retr num_questions eval_topic s =
     (case chain_invoke e llm (question_gen_prompt num_questions eval_topic) s of
        (s1, Inl err) \<Rightarrow> (s1, Inl err)
      | (s1, Inr text) \<Rightarrow>
          (let questions = split_on CHR ''\<newline>'' text
           in (case eval_loop e retr num_questions (enumerate 0 questions) [] s1 of
                 (s2, Inl err) \<Rightarrow> (s2, Inl err)
               | (s2, Inr results) \<Rightarrow> (s2, Inr PyNone))))"

section \<open>\<^verbatim>\<open>langchain_evaluation.py\<close>\<close>

text \<open>The functions of this module touch no module-level state, so they pass the trace
  alone. \<^verbatim>\<open>d[k]\<close> on a dictionary of strings raises \<^verbatim>\<open>KeyError\<close> for a missing key.\<close>

definition subscript :: "(string \<times> string) list \<Rightarrow> string \<Rightarrow> exn + string" where
  "subscript d k = (case map_of d k of None \<Rightarrow> Inl (KeyError k) | Some v \<Rightarrow> Inr v)"

text \<open>\<^verbatim>\<open>llm.with_structured_output(...).invoke(messages)\<close>.\<close>

definition structured_invoke ::
  "env \<Rightarrow> chat_openai \<Rightarrow> structured_output \<Rightarrow> message list \<Rightarrow> event list \<Rightarrow> event list \<times> (exn + pyval)" where
  "structured_invoke e cfg so msgs tr =
     (let r = chat_structured e tr cfg so msgs
      in (tr @ [StructuredInvoke cfg so msgs r], r))"

definition CorrectnessGrade :: typed_dict where
  "CorrectnessGrade =
     \<lparr>td_name = ''CorrectnessGrade'',
      td_fields =
        [(''explaination'', TStr, ''Exaplain the reasoning behind the grade''),
         (''correct'', TBool, ''True if the response is correct, False otherwise'')]\<rparr>"

definition correctness_prompt :: "string" where
  \<open>correctness_prompt =
       ''\<newline>''
     @ ''    You will be given a QUESTION, a GROUND TRUTH (correct) ANSWER, and a RESPONSE.\<newline>''
     @ ''    Here is the evaluation criteria to follow:\<newline>''
     @ ''    (1) Grade the RESPONSE based ONLY on their factual accuracy relative to the GROUND TRUTH ANSWER.\<newline>''
     @ ''    (2) Ensure that the RESPONSE does not contain any conflicting statements.\<newline>''
     @ ''    (3) It is OK if the RESPONSE contains more information than the GROUND TRUTH ANSWER, as long as it is factually relative to the GROUND TRUTH ANSWER.\<newline>''
     @ ''\<newline>''
     @ ''    Correctness:\<newline>''
     @ ''    A correctness of True means that the RESPONSE meets all the criteria.\<newline>''
     @ ''    A correctness of False means that the RESPONSE does not meet all the criteria.\<newline>''
     @ ''\<newline>''
     @ ''    Explain your reasoning in a step-by-step manner to ensure your reasoning and conclusion are correct.\<newline>''
     @ ''    Avoid simply stating the correct answer at the outset.\<newline>''
     @ ''    ''\<close>

definition grader_llm :: chat_openai where
  "grader_llm = \<lparr>model = ''gpt-4o-mini'', temperature = 0, top_p = None\<rparr>"

definition grader_output :: structured_output where
  "grader_output =
     \<lparr>so_schema = CorrectnessGrade, so_method = Some ''json_schema'', so_strict = Some True\<rparr>"

definition grading_context :: "string \<Rightarrow> string \<Rightarrow> string \<Rightarrow> string" where
  \<open>grading_context question ref_answer answer =
       ''\<newline>''
     @ ''    QUESTION: '' @ question @ ''\<newline>''
     @ ''    GROUND TRUTH ANSWER: '' @ ref_answer @ ''\<newline>''
     @ ''    RESPONSE: '' @ answer @ ''\<newline>''
     @ ''    ''\<close>

text \<open>\<^verbatim>\<open>correctness(inputs, outputs, ref_outputs)\<close>. The f-string reads the three
  dictionary entries in the order question, reference answer, response, before the model
  is called. The value returned is \<^verbatim>\<open>grade["correct"]\<close>.\<close>

definition correctness ::
  "env \<Rightarrow> (string \<times> string) list \<Rightarrow> (string \<times> string) list \<Rightarrow> (string \<times> string) list
     \<Rightarrow> event list \<Rightarrow> event list \<times> (exn + pyval)" where
  "correctness e inputs outputs ref_outputs tr =
     (case subscript inputs ''question'' of
        Inl err \<Rightarrow> (tr, Inl err)
      | Inr question \<Rightarrow>
     (case subscript ref_outputs ''answer'' of
        Inl err \<Rightarrow> (tr, Inl err)
      | Inr ref_answer \<Rightarrow>
     (case subscript outputs ''answer'' of
        Inl err \<Rightarrow> (tr, Inl err)
      | Inr answer \<Rightarrow>
     (case structured_invoke e grader_llm grader_output
             [(System, correctness_prompt), (User, grading_context question ref_answer answer)] tr of
        (tr1, Inl err) \<Rightarrow> (tr1, Inl err)
      | (tr1, Inr grade) \<Rightarrow> (tr1, getitem grade ''correct'')))))"

definition QA_generator :: typed_dict where
  "QA_generator =
     \<lparr>td_name = ''QA_generator'',
      td_fields =
        [(''question'', TStr, ''The question generated from the context.''),
         (''answer'', TStr, ''The answer to the question.'')]\<rparr>"

definition instruct_prompt :: "string" where
  \<open>instruct_prompt =
       ''\<newline>''
     @ ''    You are an expert evaluator specialized in creating high-quality question-answer pairs for information retrieval and reading comprehension tasks. \<newline>''
     @ ''    Your goal is to generate diverse, natural, and challenging questions that test understanding of the given context.\<newline>''
     @ ''\<newline>''
     @ ''    Follow these principles:\<newline>''
     @ ''    1. Generate questions that require precise understanding of the context\<newline>''
     @ ''    2. Vary question types (what, why, how, when, etc.)\<newline>''
     @ ''    3. Target different cognitive levels (recall, understanding, analysis)\<newline>''
     @ ''    4. Ensure questions are unambiguous and have clear, verifiable answers\<newline>''
     @ ''    ''\<close>

definition generation_prompt :: "string \<Rightarrow> string" where
  \<open>generation_prompt context =
       ''"\<newline>''
     @ ''    Create a natural and challenging question-answer pair from the given context that would be valuable for evaluating language models.\<newline>''
     @ ''\<newline>''
     @ ''    Question Requirements:\<newline>''
     @ ''    1. Natural Language: Frame the question as a real user would ask on a search engine or conversational AI\<newline>''
     @ ''    2. Specificity: Question must be answerable with specific information from the context\<newline>''
     @ ''    3. Clarity: Question should be unambiguous with only one correct interpretation\<newline>''
     @ ''    4. Depth: Prefer questions that require understanding rather than simple keyword matching\<newline>''
     @ ''    5. Independence: Question must stand alone without referencing the context or source\<newline>''
     @ ''    6. Conciseness: Both question and answer should be concise and to the point\<newline>''
     @ ''\<newline>''
     @ ''    Answer Requirements:\<newline>''
     @ ''    1. Accuracy: Must be supported by the context\<newline>''
     @ ''    2. Completeness: Include all necessary information to fully answer the question\<newline>''
     @ ''    3. Conciseness: Exclude irrelevant details\<newline>''
     @ ''    4. Self-contained: Answer should make sense without needing additional context\<newline>''
     @ ''\<newline>''
     @ ''    AVOID:\<newline>''
     @ ''    - Questions that can be answered without the context\<newline>''
     @ ''    - Questions with multiple possible correct answers\<newline>''
     @ ''    - Questions that require information beyond the context\<newline>''
     @ ''    - Meta-references like "according to the passage" or "in the context"\<newline>''
     @ ''    - Yes/no questions unless they test critical understanding\<newline>''
     @ ''    - Overly simple questions that only require word matching\<newline>''
     @ ''\<newline>''
     @ ''    Output Format:\<newline>''
     @ ''    Question: <your question>\<newline>''
     @ ''    Answer: <your answer>\<newline>''
     @ ''\<newline>''
     @ ''    Context:\<newline>''
     @ ''    ''
     @ context
     @ ''\<newline>''
     @ ''    ''\<close>
definition qa_llm :: chat_openai where
  "qa_llm = \<lparr>model = ''gpt-4o-mini'', temperature = 1 / 2, top_p = Some (99 / 100)\<rparr>"

definition qa_output :: structured_output where
  "qa_output = \<lparr>so_schema = QA_generator, so_method = None, so_strict = None\<rparr>"

text \<open>\<^verbatim>\<open>qa_generator(context)\<close>: one schema-constrained call, whose outcome is returned as
  it is.\<close>

definition qa_generator :: "env \<Rightarrow> string \<Rightarrow> event list \<Rightarrow> event list \<times> (exn + pyval)" where
  "qa_generator e context tr =
     structured_invoke e qa_llm qa_output
       [(System, instruct_prompt), (User, generation_prompt context)] tr"

section \<open>Reading a trace\<close>

text \<open>What one event contributes: the query of a retriever call; the query and the
  documents of a retriever call that returned; the messages of a plain chat call; the
  printed line; the exception, if the call raised.\<close>

fun retriever_query :: "event \<Rightarrow> string list" where
  "retriever_query (RetrieverInvoke q r) = [q]"
| "retriever_query _ = []"

fun retrieval :: "event \<Rightarrow> (string \<times> document list) list" where
  "retrieval (RetrieverInvoke q (Inr docs)) = [(q, docs)]"
| "retrieval _ = []"

fun chat_message :: "event \<Rightarrow> message list list" where
  "chat_message (ChatInvoke cfg msgs r) = [msgs]"
| "chat_message _ = []"

fun chat_answer :: "event \<Rightarrow> string list" where
  "chat_answer (ChatInvoke cfg msgs (Inr r)) = [r]"
| "chat_answer _ = []"

fun printed_line :: "event \<Rightarrow> string list" where
  "printed_line (Print l) = [l]"
| "printed_line _ = []"

fun event_error :: "event \<Rightarrow> exn option" where
  "event_error (ChatInvoke cfg msgs (Inl err)) = Some err"
| "event_error (StructuredInvoke cfg so msgs (Inl err)) = Some err"
| "event_error (RetrieverInvoke q (Inl err)) = Some err"
| "event_error _ = None"

fun is_metric_event :: "event \<Rightarrow> bool" where
  "is_metric_event (MetricMeasure m) = True"
| "is_metric_event _ = False"

definition retriever_queries :: "event list \<Rightarrow> string list" where
  "retriever_queries tr = concat (map retriever_query tr)"

definition retrievals :: "event list \<Rightarrow> (string \<times> document list) list" where
  "retrievals tr = concat (map retrieval tr)"

definition chat_messages :: "event list \<Rightarrow> message list list" where
  "chat_messages tr = concat (map chat_message tr)"

definition chat_answers :: "event list \<Rightarrow> string list" where
  "chat_answers tr = concat (map chat_answer tr)"

definition printed :: "event list \<Rightarrow> string list" where
  "printed tr = concat (map printed_line tr)"

text \<open>The events a call added to the trace.\<close>

definition events_since :: "state \<Rightarrow> state \<Rightarrow> event list" where
  "events_since s s' = drop (length (trace s)) (trace s')"

text \<open>A question-generation call is a chat call whose only message is the formatted
  question-generation prompt.\<close>

definition question_gen_message :: "int \<Rightarrow> string \<Rightarrow> message list" where
  "question_gen_message num_questions topic = [(User, question_gen_prompt num_questions topic)]"


text \<open>The message the rating call receives for a question and the documents retrieved
  for it.\<close>

definition rating_message :: "string \<times> document list \<Rightarrow> message list" where
  "rating_message qd =
     [(User, eval_prompt (fst qd) (join ''\<newline>'' (map page_content (snd qd))))]"

text \<open>The progress line of iteration \<open>i\<close> (counted from 0).\<close>

definition progress_line :: "int \<Rightarrow> nat \<Rightarrow> string" where
  "progress_line num_questions i =
     ''Evaluated question '' @ str_int (int i + 1) @ ''/'' @ str_int num_questions @ '':''"

text \<open>The events of one completed iteration: for index \<open>i\<close> and question \<open>q\<close>, when the
  retriever returned \<open>docs\<close> and the rating call returned \<open>r\<close>.\<close>

fun iteration_events :: "int \<Rightarrow> (nat \<times> string) \<times> (document list \<times> string) \<Rightarrow> event list" where
  "iteration_events num_questions ((i, q), (docs, r)) =
     [RetrieverInvoke q (Inr docs),
      ChatInvoke llm (rating_message (q, docs)) (Inr r),
      Print (progress_line num_questions i),
      Print (''Question: '' @ q),
      Print (''Context: '' @ join ''\<newline>'' (map page_content docs)),
      Print (''Evaluation: '' @ r),
      Print ''-------------------\<newline>'']"

text \<open>The events of an iteration that raised \<open>err\<close> on question \<open>q\<close>: either the retriever
  raised, or it returned and the rating call raised.\<close>

definition aborted_iteration :: "string \<Rightarrow> exn \<Rightarrow> event list \<Rightarrow> bool" where
  "aborted_iteration q err evs \<longleftrightarrow>
     evs = [RetrieverInvoke q (Inl err)] \<or>
     (\<exists>docs. evs = [RetrieverInvoke q (Inr docs), ChatInvoke llm (rating_message (q, docs)) (Inl err)])"

text \<open>The record the specification calls GradeResult: a dictionary with an explanation
  string and a boolean under \<^verbatim>\<open>correct\<close>. The explanation may sit under the specification's
  spelling of the key or under the schema's (\<^verbatim>\<open>explaination\<close>).\<close>

fun is_str_field :: "pyval option \<Rightarrow> bool" where
  "is_str_field (Some (PyStr s)) = True"
| "is_str_field _ = False"

fun is_bool_field :: "pyval option \<Rightarrow> bool" where
  "is_bool_field (Some (PyBool b)) = True"
| "is_bool_field _ = False"

fun is_GradeResult :: "pyval \<Rightarrow> bool" where
  "is_GradeResult (PyDict kvs) =
     ((is_str_field (map_of kvs ''explanation'') \<or> is_str_field (map_of kvs ''explaination''))
      \<and> is_bool_field (map_of kvs ''correct''))"
| "is_GradeResult _ = False"

text \<open>A value conforms to a \<^verbatim>\<open>TypedDict\<close> schema when it is a dictionary that binds every
  field of the schema to a value of the field's type.\<close>

fun has_type :: "pytype \<Rightarrow> pyval option \<Rightarrow> bool" where
  "has_type TStr v = is_str_field v"
| "has_type TBool v = is_bool_field v"

fun conforms :: "typed_dict \<Rightarrow> pyval \<Rightarrow> bool" where
  "conforms td (PyDict kvs) = list_all (\<lambda>f. has_type (fst (snd f)) (map_of kvs (fst f))) (td_fields td)"
| "conforms td _ = False"

section \<open>Sample collaborators\<close>

text \<open>A chat model that answers the first call of a run with two questions, each ended
  by a line break, and every later call with a rating; asked for structured output, it
  returns a grade that conforms to the grader's schema.\<close>

definition sample_grade :: pyval where
  "sample_grade = PyDict [(''explaination'', PyStr ''same city''), (''correct'', PyBool True)]"

definition sample_env :: env where
  "sample_env =
     \<lparr>chat = (\<lambda>tr cfg msgs. if tr = [] then Inr ''Q1\<newline>Q2\<newline>'' else Inr ''rating''),
      chat_structured = (\<lambda>tr cfg so msgs. Inr sample_grade)\<rparr>"

text \<open>A chat model whose every call raises.\<close>

definition failing_env :: env where
  "failing_env =
     \<lparr>chat = (\<lambda>tr cfg msgs. Inl (Raised ''rate limit'')),
      chat_structured = (\<lambda>tr cfg so msgs. Inl (Raised ''rate limit''))\<rparr>"

text \<open>A retriever that returns the same two documents for every query, and one that
  raises on the empty query.\<close>

definition sample_docs :: "document list" where
  "sample_docs = [\<lparr>page_content = ''d1''\<rparr>, \<lparr>page_content = ''d2''\<rparr>]"

definition sample_retriever :: retriever where
  "sample_retriever = (\<lambda>tr q. Inr sample_docs)"

definition strict_retriever :: retriever where
  "strict_retriever =
     (\<lambda>tr q. if q = [] then Inl (Raised ''empty query'') else Inr [\<lparr>page_content = ''d1''\<rparr>])"

definition initial_state :: state where
  "initial_state = \<lparr>trace = [], globals = module_load\<rparr>"

definition sample_inputs :: "(string \<times> string) list" where
  "sample_inputs = [(''question'', ''What is the capital of France?'')]"

definition sample_outputs :: "(string \<times> string) list" where
  "sample_outputs = [(''answer'', ''The capital of France is Paris.'')]"

definition sample_ref_outputs :: "(string \<times> string) list" where
  "sample_ref_outputs = [(''answer'', ''Paris'')]"

text \<open>The states in which the sample runs end: with the sample retriever all three
  segments of the generated text are evaluated; with the strict retriever the third, empty
  segment makes the retriever raise.\<close>

definition sample_final :: "int \<Rightarrow> state" where
  "sample_final num_questions =
     \<lparr>trace =
        ChatInvoke llm (question_gen_message num_questions ''climate change'')
          (Inr ''Q1\<newline>Q2\<newline>'')
        # concat (map (iteration_events num_questions)
            [((0, ''Q1''), (sample_docs, ''rating'')),
             ((1, ''Q2''), (sample_docs, ''rating'')),
             ((2, ''''), (sample_docs, ''rating''))]),
      globals = module_load\<rparr>"

definition strict_final :: "int \<Rightarrow> state" where
  "strict_final num_questions =
     \<lparr>trace =
        ChatInvoke llm (question_gen_message num_questions ''climate change'')
          (Inr ''Q1\<newline>Q2\<newline>'')
        # concat (map (iteration_events num_questions)
            [((0, ''Q1''), ([\<lparr>page_content = ''d1''\<rparr>], ''rating'')),
             ((1, ''Q2''), ([\<lparr>page_content = ''d1''\<rparr>], ''rating''))])
        @ [RetrieverInvoke '''' (Inl (Raised ''empty query''))],
      globals = module_load\<rparr>"

section \<open>Splitting and joining\<close>

lemma split_on_not_Nil: "split_on c s \<noteq> []"
  by (induction s) (auto split: list.splits)

lemma join_split_on: "join [c] (split_on c s) = s"
proof (induction s)
  case Nil
  show ?case by simp
next
  case (Cons x xs)
  obtain p ps where ps: "split_on c xs = p # ps"
    using split_on_not_Nil [of c xs] by (cases "split_on c xs") auto
  show ?case
  proof (cases "x = c")
    case True
    with Cons ps show ?thesis by simp
  next
    case False
    with Cons ps show ?thesis by (cases ps) auto
  qed
qed

lemma length_split_on: "length (split_on c s) = Suc (count_list s c)"
  by (induction s) (auto split: list.splits simp: split_on_not_Nil)

lemma split_on_no_sep: "p \<in> set (split_on c s) \<Longrightarrow> c \<notin> set p"
  by (induction s arbitrary: p) (auto split: list.splits if_splits)

section \<open>Decimal numerals\<close>

text \<open>\<open>str_int\<close> renders the number it is given: reading the digits back gives the number.\<close>

lemma below_ten:
  "(d::nat) < 10 \<Longrightarrow> d = 0 \<or> d = 1 \<or> d = 2 \<or> d = 3 \<or> d = 4 \<or> d = 5 \<or> d = 6 \<or> d = 7 \<or> d = 8 \<or> d = 9"
  by arith

lemma digit_char_value: "d < 10 \<Longrightarrow> of_char (digit_char d) = 48 + d"
  using below_ten [of d] by (auto simp: digit_char_def)

lemma digit_char_not_minus: "d < 10 \<Longrightarrow> digit_char d \<noteq> CHR ''-''"
  using below_ten [of d] by (auto simp: digit_char_def)

lemma decimal_nat_snoc: "decimal_nat (ds @ [c]) = 10 * decimal_nat ds + (of_char c - 48)"
  by (simp add: decimal_nat_def)

lemma decimal_nat_str_nat: "decimal_nat (str_nat n) = n"
proof (induction n rule: str_nat.induct)
  case (1 n)
  show ?case
  proof (cases "n < 10")
    case True
    then show ?thesis
      by (subst str_nat.simps) (simp add: decimal_nat_def digit_char_value)
  next
    case False
    with "1" have "decimal_nat (str_nat (n div 10)) = n div 10" by simp
    with False show ?thesis
      by (subst str_nat.simps) (simp add: decimal_nat_snoc digit_char_value)
  qed
qed

lemma str_nat_head: "\<exists>c cs. str_nat n = c # cs \<and> c \<noteq> CHR ''-''"
proof (induction n rule: str_nat.induct)
  case (1 n)
  show ?case
  proof (cases "n < 10")
    case True
    then show ?thesis by (subst str_nat.simps) (simp add: digit_char_not_minus)
  next
    case False
    with "1" obtain c cs where "str_nat (n div 10) = c # cs" "c \<noteq> CHR ''-''" by auto
    with False show ?thesis by (subst str_nat.simps) simp
  qed
qed

lemma decimal_value_str_int: "decimal_value (str_int i) = i"
proof (cases "i < 0")
  case True
  then show ?thesis by (simp add: str_int_def decimal_value_def decimal_nat_str_nat)
next
  case False
  obtain c cs where "str_nat (nat i) = c # cs" "c \<noteq> CHR ''-''"
    using str_nat_head by blast
  with False decimal_nat_str_nat [of "nat i"] show ?thesis
    by (simp add: str_int_def decimal_value_def)
qed

section \<open>The shape of a run of the retrieval evaluator\<close>

text \<open>A completed iteration adds the events of \<open>iteration_events\<close> and leaves the accumulator and
  the globals alone; an iteration that raises adds the events of an aborted iteration. A run
  of the loop is a sequence of completed iterations, followed by an aborted one if it raises.\<close>

lemma loop_body_Inr:
  assumes "loop_body e retr nq i q results s = (s', Inr results')"
  shows "\<exists>docs r. trace s' = trace s @ iteration_events nq ((i, q), (docs, r))
           \<and> results' = results \<and> globals s' = globals s"
  using assms
  by (auto simp: loop_body_def retriever_invoke_def chain_invoke_def print_def Let_def
        rating_message_def progress_line_def split: sum.splits)

lemma loop_body_Inl:
  assumes "loop_body e retr nq i q results s = (s', Inl err)"
  shows "\<exists>evs. trace s' = trace s @ evs \<and> aborted_iteration q err evs \<and> globals s' = globals s"
  using assms
  by (auto simp: loop_body_def retriever_invoke_def chain_invoke_def print_def Let_def
        rating_message_def aborted_iteration_def split: sum.splits)

lemma eval_loop_Inr:
  assumes "eval_loop e retr nq xs results s = (s', Inr results')"
  shows "\<exists>drs. length drs = length xs
           \<and> trace s' = trace s @ concat (map (iteration_events nq) (zip xs drs))
           \<and> results' = results \<and> globals s' = globals s"
  using assms
proof (induction xs arbitrary: s results)
  case Nil
  then show ?case by simp
next
  case (Cons x xs)
  obtain i q where x: "x = (i, q)" by (cases x)
  from Cons.prems x obtain s1 r1 where
    b: "loop_body e retr nq i q results s = (s1, Inr r1)" and
    l: "eval_loop e retr nq xs r1 s1 = (s', Inr results')"
    by (auto split: prod.splits sum.splits)
  from loop_body_Inr [OF b] obtain docs r where
    t1: "trace s1 = trace s @ iteration_events nq ((i, q), (docs, r))" and
    r1: "r1 = results" and g1: "globals s1 = globals s" by blast
  from Cons.IH [OF l] obtain drs where
    d: "length drs = length xs" and
    t2: "trace s' = trace s1 @ concat (map (iteration_events nq) (zip xs drs))" and
    r2: "results' = r1" and g2: "globals s' = globals s1" by blast
  show ?case
    by (rule exI [of _ "(docs, r) # drs"]) (simp add: d t1 t2 r1 r2 g1 g2 x del: iteration_events.simps)
qed

lemma eval_loop_Inl:
  assumes "eval_loop e retr nq xs results s = (s', Inl err)"
  shows "\<exists>k drs evs. k < length xs \<and> length drs = k
           \<and> trace s' = trace s @ concat (map (iteration_events nq) (zip (take k xs) drs)) @ evs
           \<and> aborted_iteration (snd (xs ! k)) err evs \<and> globals s' = globals s"
  using assms
proof (induction xs arbitrary: s results)
  case Nil
  then show ?case by simp
next
  case (Cons x xs)
  obtain i q where x: "x = (i, q)" by (cases x)
  obtain s1 res1 where b: "loop_body e retr nq i q results s = (s1, res1)"
    by (cases "loop_body e retr nq i q results s")
  show ?case
  proof (cases res1)
    case (Inl err1)
    with Cons.prems x b have e: "err1 = err" and s1: "s1 = s'" by auto
    from loop_body_Inl [OF b [unfolded Inl e]] obtain evs where
      "trace s1 = trace s @ evs" "aborted_iteration q err evs" "globals s1 = globals s" by blast
    then show ?thesis
      by (intro exI [of _ 0] exI [of _ "[]"] exI [of _ evs]) (simp add: x s1)
  next
    case (Inr r1)
    with Cons.prems x b have l: "eval_loop e retr nq xs r1 s1 = (s', Inl err)" by auto
    from loop_body_Inr [OF b [unfolded Inr]] obtain docs r where
      t1: "trace s1 = trace s @ iteration_events nq ((i, q), (docs, r))" and
      g1: "globals s1 = globals s" by blast
    from Cons.IH [OF l] obtain k drs evs where
      k: "k < length xs" and d: "length drs = k" and
      t2: "trace s' = trace s1 @ concat (map (iteration_events nq) (zip (take k xs) drs)) @ evs" and
      a: "aborted_iteration (snd (xs ! k)) err evs" and g2: "globals s' = globals s1" by blast
    show ?thesis
      by (intro exI [of _ "Suc k"] exI [of _ "(docs, r) # drs"] exI [of _ evs])
         (simp add: k d t1 t2 a g1 g2 x del: iteration_events.simps)
  qed
qed

lemma eval_loop_append:
  "eval_loop e retr nq (xs @ ys) results s =
     (case eval_loop e retr nq xs results s of
        (s1, Inl err) \<Rightarrow> (s1, Inl err)
      | (s1, Inr results1) \<Rightarrow> eval_loop e retr nq ys results1 s1)"
  by (induction xs arbitrary: results s) (auto split: prod.splits sum.splits)

lemma events_since_append: "trace s' = trace s @ new \<Longrightarrow> events_since s s' = new"
  by (simp add: events_since_def)

lemma rag_evaluation_Inr:
  assumes "rag_evaluation e retr nq topic s = (s', Inr v)"
  shows "\<exists>resp drs. chat e (trace s) llm (question_gen_message nq topic) = Inr resp
           \<and> length drs = length (split_on CHR ''\<newline>'' resp)
           \<and> events_since s s' =
               ChatInvoke llm (question_gen_message nq topic) (Inr resp)
               # concat (map (iteration_events nq) (zip (enumerate 0 (split_on CHR ''\<newline>'' resp)) drs))
           \<and> v = PyNone \<and> globals s' = globals s"
proof -
  let ?m = "question_gen_message nq topic"
  from assms obtain resp results where
    c: "chat e (trace s) llm ?m = Inr resp" and
    l: "eval_loop e retr nq (enumerate 0 (split_on CHR ''\<newline>'' resp)) []
          (s\<lparr>trace := trace s @ [ChatInvoke llm ?m (Inr resp)]\<rparr>) = (s', Inr results)" and
    v: "v = PyNone"
    by (auto simp: rag_evaluation_def chain_invoke_def Let_def question_gen_message_def
          split: sum.splits prod.splits)
  from eval_loop_Inr [OF l] obtain drs where
    d: "length drs = length (enumerate 0 (split_on CHR ''\<newline>'' resp))" and
    t: "trace s' = trace (s\<lparr>trace := trace s @ [ChatInvoke llm ?m (Inr resp)]\<rparr>)
          @ concat (map (iteration_events nq) (zip (enumerate 0 (split_on CHR ''\<newline>'' resp)) drs))" and
    g: "globals s' = globals (s\<lparr>trace := trace s @ [ChatInvoke llm ?m (Inr resp)]\<rparr>)"
    by blast
  from t have "events_since s s' =
      ChatInvoke llm ?m (Inr resp)
      # concat (map (iteration_events nq) (zip (enumerate 0 (split_on CHR ''\<newline>'' resp)) drs))"
    by (intro events_since_append) simp
  with c d v g show ?thesis by auto
qed

lemma rag_evaluation_Inl:
  assumes "rag_evaluation e retr nq topic s = (s', Inl err)"
  shows "globals s' = globals s \<and>
         ((chat e (trace s) llm (question_gen_message nq topic) = Inl err
            \<and> events_since s s' = [ChatInvoke llm (question_gen_message nq topic) (Inl err)])
          \<or> (\<exists>resp k drs evs.
                chat e (trace s) llm (question_gen_message nq topic) = Inr resp
              \<and> k < length (split_on CHR ''\<newline>'' resp) \<and> length drs = k
              \<and> events_since s s' =
                  ChatInvoke llm (question_gen_message nq topic) (Inr resp)
                  # concat (map (iteration_events nq)
                      (zip (take k (enumerate 0 (split_on CHR ''\<newline>'' resp))) drs)) @ evs
              \<and> aborted_iteration (split_on CHR ''\<newline>'' resp ! k) err evs))"
proof (cases "chat e (trace s) llm (question_gen_message nq topic)")
  case (Inl err1)
  with assms have "err1 = err" and "s' = s\<lparr>trace := trace s @ [ChatInvoke llm (question_gen_message nq topic) (Inl err)]\<rparr>"
    by (auto simp: rag_evaluation_def chain_invoke_def Let_def question_gen_message_def)
  with Inl show ?thesis by (simp add: events_since_def)
next
  case (Inr resp)
  let ?m = "question_gen_message nq topic"
  let ?qs = "split_on CHR ''\<newline>'' resp"
  let ?s1 = "s\<lparr>trace := trace s @ [ChatInvoke llm ?m (Inr resp)]\<rparr>"
  from assms Inr have l: "eval_loop e retr nq (enumerate 0 ?qs) [] ?s1 = (s', Inl err)"
    by (auto simp: rag_evaluation_def chain_invoke_def Let_def question_gen_message_def
          split: sum.splits prod.splits)
  from eval_loop_Inl [OF l] obtain k drs evs where
    k: "k < length (enumerate 0 ?qs)" and d: "length drs = k" and
    t: "trace s' = trace ?s1 @ concat (map (iteration_events nq) (zip (take k (enumerate 0 ?qs)) drs)) @ evs" and
    a: "aborted_iteration (snd (enumerate 0 ?qs ! k)) err evs" and
    g: "globals s' = globals ?s1"
    by blast
  from t have ev: "events_since s s' =
      ChatInvoke llm ?m (Inr resp) # concat (map (iteration_events nq) (zip (take k (enumerate 0 ?qs)) drs)) @ evs"
    by (intro events_since_append) simp
  from k a have a': "aborted_iteration (?qs ! k) err evs"
    by (simp add: nth_enumerate_eq)
  from k d ev a' g Inr show ?thesis by auto
qed

section \<open>Reading the events of a run\<close>

text \<open>What the events of completed and of aborted iterations contribute to each reading of
  the trace.\<close>

lemma retriever_queries_append [simp]:
  "retriever_queries (xs @ ys) = retriever_queries xs @ retriever_queries ys"
  by (simp add: retriever_queries_def)

lemma retrievals_append [simp]: "retrievals (xs @ ys) = retrievals xs @ retrievals ys"
  by (simp add: retrievals_def)

lemma chat_messages_append [simp]: "chat_messages (xs @ ys) = chat_messages xs @ chat_messages ys"
  by (simp add: chat_messages_def)

lemma printed_append [simp]: "printed (xs @ ys) = printed xs @ printed ys"
  by (simp add: printed_def)

lemma chat_messages_Cons_Chat [simp]:
  "chat_messages (ChatInvoke cfg msgs r # evs) = msgs # chat_messages evs"
  by (simp add: chat_messages_def)

lemma retriever_queries_Cons_Chat [simp]:
  "retriever_queries (ChatInvoke cfg msgs r # evs) = retriever_queries evs"
  by (simp add: retriever_queries_def)

lemma printed_Cons_Chat [simp]: "printed (ChatInvoke cfg msgs r # evs) = printed evs"
  by (simp add: printed_def)

lemma retrievals_Cons_Chat [simp]: "retrievals (ChatInvoke cfg msgs r # evs) = retrievals evs"
  by (simp add: retrievals_def)

lemma retriever_queries_iterations:
  "retriever_queries (concat (map (iteration_events nq) ys)) = map (\<lambda>y. snd (fst y)) ys"
  by (induction ys) (auto simp: retriever_queries_def)

lemma retrievals_iterations:
  "retrievals (concat (map (iteration_events nq) ys)) = map (\<lambda>y. (snd (fst y), fst (snd y))) ys"
  by (induction ys) (auto simp: retrievals_def)

lemma chat_messages_iterations:
  "chat_messages (concat (map (iteration_events nq) ys)) =
     map (\<lambda>y. rating_message (snd (fst y), fst (snd y))) ys"
  by (induction ys) (auto simp: chat_messages_def)

lemma chat_answers_iterations:
  "chat_answers (concat (map (iteration_events nq) ys)) = map (\<lambda>y. snd (snd y)) ys"
  by (induction ys) (auto simp: chat_answers_def)

lemma printed_iterations:
  "printed (concat (map (iteration_events nq) ys)) =
     concat (map (\<lambda>y. [progress_line nq (fst (fst y)),
                        ''Question: '' @ snd (fst y),
                        ''Context: '' @ join ''\<newline>'' (map page_content (fst (snd y))),
                        ''Evaluation: '' @ snd (snd y),
                        ''-------------------\<newline>'']) ys)"
  by (induction ys) (auto simp: printed_def)

lemma no_error_iterations:
  "ev \<in> set (concat (map (iteration_events nq) ys)) \<Longrightarrow> event_error ev = None"
  by (induction ys) auto

lemma no_metric_iterations:
  "ev \<in> set (concat (map (iteration_events nq) ys)) \<Longrightarrow> \<not> is_metric_event ev"
  by (induction ys) auto

lemma evaluation_printed_iterations:
  "y \<in> set ys \<Longrightarrow> Print (''Evaluation: '' @ snd (snd y)) \<in> set (concat (map (iteration_events nq) ys))"
  by (induction ys) auto

lemma chat_answers_printed:
  assumes "r \<in> set (chat_answers (concat (map (iteration_events nq) ys)))"
  shows "Print (''Evaluation: '' @ r) \<in> set (concat (map (iteration_events nq) ys))"
proof -
  from assms obtain y where "y \<in> set ys" "r = snd (snd y)"
    by (auto simp: chat_answers_iterations)
  then show ?thesis using evaluation_printed_iterations by blast
qed


lemma rating_message_split:
  "rating_message = (\<lambda>(q, docs). [(User, eval_prompt q (join ''\<newline>'' (map page_content docs)))])"
  by (auto simp: rating_message_def fun_eq_iff)


lemma retriever_queries_aborted:
  "aborted_iteration q err evs \<Longrightarrow> retriever_queries evs = [q]"
  by (auto simp: aborted_iteration_def retriever_queries_def)


lemma retrievals_aborted:
  "aborted_iteration q err evs \<Longrightarrow>
     chat_messages evs = map rating_message (retrievals evs)"
  by (auto simp: aborted_iteration_def retrievals_def chat_messages_def)

lemma map_fst_zip_eq:
  "length ys = length xs \<Longrightarrow> map (\<lambda>y. g (fst y)) (zip xs ys) = map g xs"
  by (induction xs ys rule: list_induct2') auto

lemma nth_concat_blocks:
  assumes "\<And>y. length (f y) = 5" and "i < length ys"
  shows "concat (map f ys) ! (5 * i) = f (ys ! i) ! 0"
  using assms(2)
proof (induction ys arbitrary: i)
  case Nil
  then show ?case by simp
next
  case (Cons y ys)
  show ?case
  proof (cases i)
    case 0
    then show ?thesis using assms(1) [of y] by (simp add: nth_append)
  next
    case (Suc j)
    with Cons.prems have "j < length ys" by simp
    from Cons.IH [OF this] Suc show ?thesis
      using assms(1) [of y] by (simp add: nth_append)
  qed
qed

lemma length_concat_blocks:
  assumes "\<And>y. length (f y) = 5"
  shows "length (concat (map f ys)) = 5 * length ys"
  by (induction ys) (simp_all add: assms)

subsection \<open>A call that raises ends the run\<close>

lemma error_is_last:
  assumes "xs = ok @ [final]" and "\<forall>x \<in> set ok. event_error x = None"
    and "xs = pre @ ev # post" and "event_error ev = Some err"
  shows "post = [] \<and> ev = final"
proof (cases post rule: rev_cases)
  case Nil
  with assms(1,3) show ?thesis by simp
next
  case (snoc post' z)
  with assms(1,3) have "ok @ [final] = (pre @ ev # post') @ [z]" by simp
  then have "ok = pre @ ev # post'" by (simp only: append1_eq_conv)
  with assms(2,4) show ?thesis by simp
qed

lemma aborted_iteration_last:
  assumes "aborted_iteration q err evs"
  shows "\<exists>ok final. evs = ok @ [final] \<and> (\<forall>x \<in> set ok. event_error x = None)
           \<and> event_error final = Some err"
proof -
  from assms consider "evs = [] @ [RetrieverInvoke q (Inl err)]"
    | docs where "evs = [RetrieverInvoke q (Inr docs)] @ [ChatInvoke llm (rating_message (q, docs)) (Inl err)]"
    by (auto simp: aborted_iteration_def)
  then show ?thesis
  proof cases
    case 1
    show ?thesis
      by (intro exI [of _ "[]"] exI [of _ "RetrieverInvoke q (Inl err)"]) (simp add: 1)
  next
    case 2
    show ?thesis
      by (intro exI [of _ "[RetrieverInvoke q (Inr docs)]"]
            exI [of _ "ChatInvoke llm (rating_message (q, docs)) (Inl err)"]) (simp add: 2)
  qed
qed

lemma rag_evaluation_error_is_last:
  assumes run: "rag_evaluation e retr nq topic s = (s', res)"
    and split: "events_since s s' = pre @ ev # post" and err: "event_error ev = Some err"
  shows "post = [] \<and> res = Inl err"
proof (cases res)
  case (Inr v)
  from rag_evaluation_Inr [OF run [unfolded Inr]] obtain resp drs where
    ev: "events_since s s' =
           ChatInvoke llm (question_gen_message nq topic) (Inr resp)
           # concat (map (iteration_events nq) (zip (enumerate 0 (split_on CHR ''\<newline>'' resp)) drs))"
    by blast
  have "ev \<in> set (events_since s s')" by (simp add: split)
  then have "event_error ev = None"
    unfolding ev by (auto dest: no_error_iterations)
  with err show ?thesis by simp
next
  case (Inl err0)
  from rag_evaluation_Inl [OF run [unfolded Inl]]
  consider
    (gen) "events_since s s' = [ChatInvoke llm (question_gen_message nq topic) (Inl err0)]"
  | (loop) resp k drs evs where
      "events_since s s' =
         ChatInvoke llm (question_gen_message nq topic) (Inr resp)
         # concat (map (iteration_events nq)
             (zip (take k (enumerate 0 (split_on CHR ''\<newline>'' resp))) drs)) @ evs"
      "aborted_iteration (split_on CHR ''\<newline>'' resp ! k) err0 evs"
    by blast
  then have "\<exists>ok final. events_since s s' = ok @ [final]
      \<and> (\<forall>x \<in> set ok. event_error x = None) \<and> event_error final = Some err0"
  proof cases
    case gen
    show ?thesis
      by (intro exI [of _ "[]"]
            exI [of _ "ChatInvoke llm (question_gen_message nq topic) (Inl err0)"]) (simp add: gen)
  next
    case loop
    from aborted_iteration_last [OF loop(2)] obtain ok final where
      evs: "evs = ok @ [final]" and ok: "\<forall>x \<in> set ok. event_error x = None"
      and final: "event_error final = Some err0" by blast
    let ?ok = "ChatInvoke llm (question_gen_message nq topic) (Inr resp)
         # concat (map (iteration_events nq)
             (zip (take k (enumerate 0 (split_on CHR ''\<newline>'' resp))) drs)) @ ok"
    have "events_since s s' = ?ok @ [final]" by (simp add: loop(1) evs)
    moreover have "\<forall>x \<in> set ?ok. event_error x = None"
      using ok by (auto dest: no_error_iterations)
    ultimately show ?thesis using final by blast
  qed
  then obtain ok final where
    "events_since s s' = ok @ [final]" "\<forall>x \<in> set ok. event_error x = None"
    "event_error final = Some err0" by blast
  from error_is_last [OF this(1,2) split err] this(3) err show ?thesis
    by (simp add: Inl)
qed

lemma rag_evaluation_Inl_last:
  assumes run: "rag_evaluation e retr nq topic s = (s', Inl err)"
  shows "\<exists>ok final. events_since s s' = ok @ [final]
           \<and> (\<forall>x \<in> set ok. event_error x = None) \<and> event_error final = Some err"
proof -
  from rag_evaluation_Inl [OF run]
  consider
    (gen) "events_since s s' = [ChatInvoke llm (question_gen_message nq topic) (Inl err)]"
  | (loop) resp k drs evs where
      "events_since s s' =
         ChatInvoke llm (question_gen_message nq topic) (Inr resp)
         # concat (map (iteration_events nq)
             (zip (take k (enumerate 0 (split_on CHR ''\<newline>'' resp))) drs)) @ evs"
      "aborted_iteration (split_on CHR ''\<newline>'' resp ! k) err evs"
    by blast
  then show ?thesis
  proof cases
    case gen
    show ?thesis
      by (intro exI [of _ "[]"]
            exI [of _ "ChatInvoke llm (question_gen_message nq topic) (Inl err)"]) (simp add: gen)
  next
    case loop
    from aborted_iteration_last [OF loop(2)] obtain ok final where
      evs: "evs = ok @ [final]" and ok: "\<forall>x \<in> set ok. event_error x = None"
      and final: "event_error final = Some err" by blast
    let ?ok = "ChatInvoke llm (question_gen_message nq topic) (Inr resp)
         # concat (map (iteration_events nq)
             (zip (take k (enumerate 0 (split_on CHR ''\<newline>'' resp))) drs)) @ ok"
    have "events_since s s' = ?ok @ [final]" by (simp add: loop(1) evs)
    moreover have "\<forall>x \<in> set ?ok. event_error x = None"
      using ok by (auto dest: no_error_iterations)
    ultimately show ?thesis using final by blast
  qed
qed

subsection \<open>What a run prints\<close>

lemma printed_aborted: "aborted_iteration q err evs \<Longrightarrow> printed evs = []"
  by (auto simp: aborted_iteration_def printed_def)

lemma rag_evaluation_printed:
  assumes run: "rag_evaluation e retr nq topic s = (s', res)"
  shows "\<exists>ys :: ((nat \<times> string) \<times> (document list \<times> string)) list.
           printed (events_since s s') =
               concat (map (\<lambda>y. [progress_line nq (fst (fst y)),
                        ''Question: '' @ snd (fst y),
                        ''Context: '' @ join ''\<newline>'' (map page_content (fst (snd y))),
                        ''Evaluation: '' @ snd (snd y),
                        ''-------------------\<newline>'']) ys)
           \<and> (\<forall>i < length ys. fst (fst (ys ! i)) = i)
           \<and> (\<forall>resp. chat e (trace s) llm (question_gen_message nq topic) = Inr resp \<longrightarrow>
                 length ys \<le> length (split_on CHR ''\<newline>'' resp)
               \<and> (\<forall>v. res = Inr v \<longrightarrow> length ys = length (split_on CHR ''\<newline>'' resp)))"
  (is "\<exists>ys. _ = concat (map ?f ys) \<and> _")
proof (cases res)
  case (Inr v)
  from rag_evaluation_Inr [OF run [unfolded Inr]] obtain resp drs where
    c: "chat e (trace s) llm (question_gen_message nq topic) = Inr resp" and
    d: "length drs = length (split_on CHR ''\<newline>'' resp)" and
    ev: "events_since s s' =
           ChatInvoke llm (question_gen_message nq topic) (Inr resp)
           # concat (map (iteration_events nq) (zip (enumerate 0 (split_on CHR ''\<newline>'' resp)) drs))"
    by blast
  let ?ys = "zip (enumerate 0 (split_on CHR ''\<newline>'' resp)) drs"
  have "printed (events_since s s') = concat (map ?f ?ys)"
    by (simp add: ev printed_iterations)
  moreover have "\<forall>i < length ?ys. fst (fst (?ys ! i)) = i"
    by (simp add: d nth_enumerate_eq)
  moreover have "\<forall>resp. chat e (trace s) llm (question_gen_message nq topic) = Inr resp \<longrightarrow>
                 length ?ys \<le> length (split_on CHR ''\<newline>'' resp)
               \<and> (\<forall>v. res = Inr v \<longrightarrow> length ?ys = length (split_on CHR ''\<newline>'' resp))"
    by (simp add: c d)
  ultimately show ?thesis by blast
next
  case (Inl err)
  from rag_evaluation_Inl [OF run [unfolded Inl]]
  consider
    (gen) "chat e (trace s) llm (question_gen_message nq topic) = Inl err"
          "events_since s s' = [ChatInvoke llm (question_gen_message nq topic) (Inl err)]"
  | (loop) resp k drs evs where
      "chat e (trace s) llm (question_gen_message nq topic) = Inr resp"
      "k < length (split_on CHR ''\<newline>'' resp)" "length drs = k"
      "events_since s s' =
         ChatInvoke llm (question_gen_message nq topic) (Inr resp)
         # concat (map (iteration_events nq)
             (zip (take k (enumerate 0 (split_on CHR ''\<newline>'' resp))) drs)) @ evs"
      "aborted_iteration (split_on CHR ''\<newline>'' resp ! k) err evs"
    by blast
  then show ?thesis
  proof cases
    case gen
    have "printed (events_since s s') = concat (map ?f [])"
      by (simp add: gen printed_def)
    moreover have "\<forall>resp. chat e (trace s) llm (question_gen_message nq topic) = Inr resp \<longrightarrow>
                 length ([] :: ((nat \<times> string) \<times> (document list \<times> string)) list)
                   \<le> length (split_on CHR ''\<newline>'' resp)
               \<and> (\<forall>v. res = Inr v \<longrightarrow>
                     length ([] :: ((nat \<times> string) \<times> (document list \<times> string)) list)
                       = length (split_on CHR ''\<newline>'' resp))"
      by (simp add: gen Inl)
    ultimately show ?thesis
      by (intro exI [of _ "[] :: ((nat \<times> string) \<times> (document list \<times> string)) list"]) simp
  next
    case loop
    let ?ys = "zip (take k (enumerate 0 (split_on CHR ''\<newline>'' resp))) drs"
    have "printed (events_since s s') = concat (map ?f ?ys)"
      by (simp add: loop(4) printed_iterations printed_aborted [OF loop(5)])
    moreover have "\<forall>i < length ?ys. fst (fst (?ys ! i)) = i"
      using loop(2,3) by (simp add: nth_enumerate_eq)
    moreover have "\<forall>resp. chat e (trace s) llm (question_gen_message nq topic) = Inr resp \<longrightarrow>
                 length ?ys \<le> length (split_on CHR ''\<newline>'' resp)
               \<and> (\<forall>v. res = Inr v \<longrightarrow> length ?ys = length (split_on CHR ''\<newline>'' resp))"
      using loop(2,3) by (simp add: loop(1) Inl)
    ultimately show ?thesis by blast
  qed
qed

subsection \<open>The globals are passed along\<close>

text \<open>A run started with other globals makes the same calls, prints the same lines and ends
  with the same outcome.\<close>

lemma print_globals: "print l (s\<lparr>globals := g\<rparr>) = (print l s)\<lparr>globals := g\<rparr>"
  by (simp add: print_def)

lemma chain_invoke_globals:
  "chain_invoke e cfg p (s\<lparr>globals := g\<rparr>) =
     (fst (chain_invoke e cfg p s)\<lparr>globals := g\<rparr>, snd (chain_invoke e cfg p s))"
  by (simp add: chain_invoke_def Let_def)

lemma retriever_invoke_globals:
  "retriever_invoke retr q (s\<lparr>globals := g\<rparr>) =
     (fst (retriever_invoke retr q s)\<lparr>globals := g\<rparr>, snd (retriever_invoke retr q s))"
  by (simp add: retriever_invoke_def Let_def)

lemma loop_body_globals:
  "loop_body e retr nq i q results (s\<lparr>globals := g\<rparr>) =
     (fst (loop_body e retr nq i q results s)\<lparr>globals := g\<rparr>,
      snd (loop_body e retr nq i q results s))"
  by (simp add: loop_body_def retriever_invoke_def chain_invoke_def print_def Let_def
        split: sum.splits)

lemma eval_loop_globals:
  "eval_loop e retr nq xs results (s\<lparr>globals := g\<rparr>) =
     (fst (eval_loop e retr nq xs results s)\<lparr>globals := g\<rparr>,
      snd (eval_loop e retr nq xs results s))"
proof (induction xs arbitrary: results s)
  case Nil
  show ?case by simp
next
  case (Cons x xs)
  obtain i q where x: "x = (i, q)" by (cases x)
  obtain s1 r1 where b: "loop_body e retr nq i q results s = (s1, r1)"
    by (cases "loop_body e retr nq i q results s")
  show ?case
    by (cases r1) (simp_all add: x loop_body_globals b Cons.IH)
qed

lemma rag_evaluation_globals:
  "rag_evaluation e retr nq topic (s\<lparr>globals := g\<rparr>) =
     (fst (rag_evaluation e retr nq topic s)\<lparr>globals := g\<rparr>,
      snd (rag_evaluation e retr nq topic s))"
proof -
  obtain s1 r1 where c: "chain_invoke e llm (question_gen_prompt nq topic) s = (s1, r1)"
    by (cases "chain_invoke e llm (question_gen_prompt nq topic) s")
  show ?thesis
  proof (cases r1)
    case (Inl err)
    with c show ?thesis by (simp add: rag_evaluation_def chain_invoke_globals)
  next
    case (Inr resp)
    obtain s2 r2 where l:
      "eval_loop e retr nq (enumerate 0 (split_on CHR ''\<newline>'' resp)) [] s1 = (s2, r2)"
      by (cases "eval_loop e retr nq (enumerate 0 (split_on CHR ''\<newline>'' resp)) [] s1")
    with c Inr show ?thesis
      by (cases r2) (simp_all add: rag_evaluation_def chain_invoke_globals eval_loop_globals Let_def)
  qed
qed

section \<open>The grade and its schema\<close>

lemma conforms_CorrectnessGrade:
  assumes "conforms CorrectnessGrade grade"
  shows "\<exists>b. getitem grade ''correct'' = Inr (PyBool b)"
proof (cases grade)
  case (PyDict kvs)
  with assms have "is_bool_field (map_of kvs ''correct'')"
    by (simp add: CorrectnessGrade_def)
  then obtain b where "map_of kvs ''correct'' = Some (PyBool b)"
    by (cases "map_of kvs ''correct''" rule: is_bool_field.cases) auto
  with PyDict show ?thesis by simp
qed (use assms in simp_all)

section \<open>The sample runs\<close>

lemma str_int_small: "str_int 1 = ''1''" "str_int 2 = ''2''" "str_int 3 = ''3''" "str_int 5 = ''5''"
  by (simp_all add: str_int_def str_nat.simps digit_char_def)

lemma initial_trace: "trace initial_state = []"
  by (simp add: initial_state_def)

lemma initial_globals: "globals initial_state = module_load"
  by (simp add: initial_state_def)

lemma sample_chat:
  "chat sample_env (trace initial_state) cfg msgs = Inr ''Q1\<newline>Q2\<newline>''"
  by (simp add: sample_env_def initial_state_def)

lemma sample_structured: "chat_structured sample_env tr cfg so msgs = Inr sample_grade"
  by (simp add: sample_env_def)

lemma sample_run:
  "rag_evaluation sample_env sample_retriever nq ''climate change'' initial_state =
     (sample_final nq, Inr PyNone)"
  by (simp add: rag_evaluation_def chain_invoke_def sample_env_def sample_retriever_def initial_state_def
       sample_final_def enumerate_eq_zip upt_rec loop_body_def retriever_invoke_def print_def
       question_gen_message_def rating_message_def progress_line_def Let_def)

lemma strict_run:
  "rag_evaluation sample_env strict_retriever nq ''climate change'' initial_state =
     (strict_final nq, Inl (Raised ''empty query''))"
  by (simp add: rag_evaluation_def chain_invoke_def sample_env_def strict_retriever_def initial_state_def
       strict_final_def enumerate_eq_zip upt_rec loop_body_def retriever_invoke_def print_def
       question_gen_message_def rating_message_def progress_line_def Let_def)

lemma sample_events:
  "events_since initial_state (sample_final nq) = trace (sample_final nq)"
  by (simp add: events_since_def initial_state_def)

lemma strict_events:
  "events_since initial_state (strict_final nq) =
     butlast (trace (strict_final nq)) @ RetrieverInvoke '''' (Inl (Raised ''empty query'')) # []"
  by (simp add: events_since_def initial_state_def strict_final_def butlast_append)


lemma sample_retrievals:
  "retrievals (trace (sample_final nq)) = [(''Q1'', sample_docs), (''Q2'', sample_docs), ('''', sample_docs)]"
  by (simp add: sample_final_def retrievals_def)

lemma sample_body:
  "loop_body sample_env sample_retriever 5 0 ''Q1'' [] initial_state =
     (\<lparr>trace = iteration_events 5 ((0, ''Q1''), (sample_docs, ''rating'')), globals = module_load\<rparr>,
      Inr [])"
  by (simp add: loop_body_def retriever_invoke_def chain_invoke_def print_def
        sample_env_def sample_retriever_def initial_state_def rating_message_def progress_line_def Let_def)

lemma sample_loop_run:
  "eval_loop sample_env sample_retriever 5 (take 1 (enumerate 0 [''Q1'', ''Q2''])) [] initial_state =
     (\<lparr>trace = iteration_events 5 ((0, ''Q1''), (sample_docs, ''rating'')), globals = module_load\<rparr>,
      Inr [])"
  by (simp add: enumerate_eq_zip upt_rec sample_body)

lemma sample_subscripts:
  "subscript sample_inputs ''question'' = Inr ''What is the capital of France?''"
  "subscript sample_ref_outputs ''answer'' = Inr ''Paris''"
  "subscript sample_outputs ''answer'' = Inr ''The capital of France is Paris.''"
  by (simp_all add: subscript_def sample_inputs_def sample_ref_outputs_def sample_outputs_def)

lemma sample_grade_conforms: "conforms CorrectnessGrade sample_grade"
  by (simp add: CorrectnessGrade_def sample_grade_def)

lemma sample_grade_correct: "getitem sample_grade ''correct'' = Inr (PyBool True)"
  by (simp add: sample_grade_def)

lemma str_int_examples: "str_int 12 = ''12''" "str_int (- 3) = ''-3''" "str_int 0 = ''0''" "str_int 305 = ''305''"
  by (simp_all add: str_int_def str_nat.simps digit_char_def)

lemma strict_printed:
  "printed (trace (strict_final nq)) =
     [progress_line nq 0, ''Question: Q1'', ''Context: d1'', ''Evaluation: rating'',
      ''-------------------\<newline>'',
      progress_line nq 1, ''Question: Q2'', ''Context: d1'', ''Evaluation: rating'',
      ''-------------------\<newline>'']"
  by (simp add: strict_final_def printed_def)

lemma strict_events_trace: "events_since initial_state (strict_final nq) = trace (strict_final nq)"
  by (simp add: events_since_def initial_state_def)

lemma strict_last:
  "last (trace (strict_final nq)) = RetrieverInvoke '''' (Inl (Raised ''empty query''))"
  by (simp add: strict_final_def)



section \<open>The claims\<close>

subsection \<open>C1: calls issued by the retrieval evaluator\<close>




subsection \<open>C2: the value returned by the retrieval evaluator\<close>

text \<open>
  C2. Whenever \<^verbatim>\<open>rag_evaluation\<close> completes without an exception, the value it returns is
  \<^verbatim>\<open>None\<close>, not a report; what it leaves behind is console output, five printed lines for
  each segment of the text the question-generation call returned.
\<close>

theorem rag_evaluation_returns_None:
  assumes run: "rag_evaluation e retr nq topic s = (s', Inr v)"
  shows "v = PyNone
       \<and> (\<exists>resp. chat e (trace s) llm (question_gen_message nq topic) = Inr resp
             \<and> length (printed (events_since s s')) = 5 * length (split_on CHR ''\<newline>'' resp))"
proof -
  from rag_evaluation_Inr [OF run] obtain resp drs where
    c: "chat e (trace s) llm (question_gen_message nq topic) = Inr resp" and
    d: "length drs = length (split_on CHR ''\<newline>'' resp)" and
    ev: "events_since s s' =
           ChatInvoke llm (question_gen_message nq topic) (Inr resp)
           # concat (map (iteration_events nq) (zip (enumerate 0 (split_on CHR ''\<newline>'' resp)) drs))" and
    v: "v = PyNone"
    by blast
  have "length (printed (events_since s s')) = 5 * length (split_on CHR ''\<newline>'' resp)"
    by (simp add: ev printed_iterations length_concat_blocks d)
  with c v show ?thesis by blast
qed

text \<open>The theorem at the sample run, which prints fifteen lines for its three segments.\<close>

theorem rag_evaluation_returns_None_witness:
  "rag_evaluation sample_env sample_retriever 5 ''climate change'' initial_state
     = (sample_final 5, Inr PyNone)
   \<and> length (printed (events_since initial_state (sample_final 5))) = 15"
  using rag_evaluation_returns_None [OF sample_run [of 5]]
  by (simp add: sample_run sample_chat)

subsection \<open>C3: the value returned by the correctness grader\<close>

text \<open>
  C3, as amended. For every question, reference answer and candidate answer, \<^verbatim>\<open>correctness\<close>
  issues exactly one grading call, constrained to the schema \<^verbatim>\<open>CorrectnessGrade\<close> (fields
  \<^verbatim>\<open>explaination\<close> and \<^verbatim>\<open>correct\<close>), and its outcome is the exception of that call if it
  raises and otherwise whatever the grade holds under \<^verbatim>\<open>correct\<close>. When the grade conforms
  to the schema this is the bare boolean: the explanation stays behind in the grade, and the
  value returned is not a GradeResult record.
\<close>

theorem correctness_returns_boolean_only:
  assumes q: "subscript inputs ''question'' = Inr q"
    and r: "subscript ref_outputs ''answer'' = Inr ref"
    and a: "subscript outputs ''answer'' = Inr ans"
  shows "correctness e inputs outputs ref_outputs tr =
           (tr @ [StructuredInvoke grader_llm grader_output
                    [(System, correctness_prompt), (User, grading_context q ref ans)]
                    (chat_structured e tr grader_llm grader_output
                       [(System, correctness_prompt), (User, grading_context q ref ans)])],
            case chat_structured e tr grader_llm grader_output
                   [(System, correctness_prompt), (User, grading_context q ref ans)] of
              Inl err \<Rightarrow> Inl err
            | Inr grade \<Rightarrow> getitem grade ''correct'')
       \<and> map fst (td_fields (so_schema grader_output)) = [''explaination'', ''correct'']
       \<and> (\<forall>grade. chat_structured e tr grader_llm grader_output
                      [(System, correctness_prompt), (User, grading_context q ref ans)] = Inr grade
                    \<and> conforms CorrectnessGrade grade \<longrightarrow>
             (\<exists>b. snd (correctness e inputs outputs ref_outputs tr) = Inr (PyBool b)
                  \<and> getitem grade ''correct'' = Inr (PyBool b)
                  \<and> \<not> is_GradeResult (PyBool b)))"
proof -
  let ?r = "chat_structured e tr grader_llm grader_output
              [(System, correctness_prompt), (User, grading_context q ref ans)]"
  have c: "correctness e inputs outputs ref_outputs tr =
           (tr @ [StructuredInvoke grader_llm grader_output
                    [(System, correctness_prompt), (User, grading_context q ref ans)] ?r],
            case ?r of Inl err \<Rightarrow> Inl err | Inr grade \<Rightarrow> getitem grade ''correct'')"
    using q r a by (cases ?r) (simp_all add: correctness_def structured_invoke_def Let_def)
  have "\<exists>b. snd (correctness e inputs outputs ref_outputs tr) = Inr (PyBool b)
            \<and> getitem grade ''correct'' = Inr (PyBool b) \<and> \<not> is_GradeResult (PyBool b)"
    if "?r = Inr grade" "conforms CorrectnessGrade grade" for grade
    using conforms_CorrectnessGrade [OF that(2)] that(1) by (auto simp: c)
  with c show ?thesis
    by (simp add: grader_output_def CorrectnessGrade_def)
qed

text \<open>The theorem at the sample grading of a correct answer.\<close>

theorem correctness_returns_boolean_only_witness:
  "subscript sample_inputs ''question'' = Inr ''What is the capital of France?''
   \<and> subscript sample_ref_outputs ''answer'' = Inr ''Paris''
   \<and> subscript sample_outputs ''answer'' = Inr ''The capital of France is Paris.''
   \<and> conforms CorrectnessGrade sample_grade
   \<and> correctness sample_env sample_inputs sample_outputs sample_ref_outputs [] =
       ([StructuredInvoke grader_llm grader_output
           [(System, correctness_prompt),
            (User, grading_context ''What is the capital of France?'' ''Paris''
                     ''The capital of France is Paris.'')]
           (Inr sample_grade)],
        Inr (PyBool True))"
  using correctness_returns_boolean_only [OF sample_subscripts(1,2,3), of sample_env "[]"]
  by (simp add: sample_subscripts sample_grade_conforms sample_grade_correct sample_structured)

text \<open>
  C3 as stated (the grader returns a GradeResult record with an explanation and a
  boolean) fails there: the grade the model produced is such a record, the value
  \<^verbatim>\<open>correctness\<close> returns is the bare boolean \<^verbatim>\<open>True\<close>.
\<close>

theorem correctness_returns_bare_boolean:
  "snd (correctness sample_env sample_inputs sample_outputs sample_ref_outputs []) = Inr (PyBool True)
   \<and> \<not> is_GradeResult (PyBool True)
   \<and> is_GradeResult sample_grade"
  by (simp add: correctness_def structured_invoke_def Let_def sample_subscripts sample_structured
        sample_grade_def)

subsection \<open>C4: the test questions are the newline split of the generated text\<close>

text \<open>
  C4. When the question-generation call returns a text, the questions the evaluator works
  on are the pieces of that text between line breaks, as they are: the queries handed to
  the retriever are an initial part of the split (at least its first piece), and the whole
  split, in order, when the run completes. Nothing is trimmed or dropped: joining the pieces
  with line breaks gives the text back, no piece holds a line break, and there is one more
  piece than there are line breaks. Nothing is validated: the requested \<^verbatim>\<open>num_questions\<close>
  plays no part, and a run ends with an exception only when its last event is a call to
  the retriever or to the model that raised that exception.
\<close>

theorem questions_are_newline_split:
  assumes run: "rag_evaluation e retr nq topic s = (s', res)"
    and resp: "chat e (trace s) llm (question_gen_message nq topic) = Inr resp"
  shows "(\<exists>n. 0 < n \<and> n \<le> length (split_on CHR ''\<newline>'' resp)
             \<and> retriever_queries (events_since s s') = take n (split_on CHR ''\<newline>'' resp))
       \<and> (\<forall>v. res = Inr v \<longrightarrow> retriever_queries (events_since s s') = split_on CHR ''\<newline>'' resp)
       \<and> (\<forall>err. res = Inl err \<longrightarrow>
             events_since s s' \<noteq> [] \<and> event_error (last (events_since s s')) = Some err)
       \<and> join ''\<newline>'' (split_on CHR ''\<newline>'' resp) = resp
       \<and> length (split_on CHR ''\<newline>'' resp) = Suc (count_list resp CHR ''\<newline>'')
       \<and> (\<forall>p \<in> set (split_on CHR ''\<newline>'' resp). CHR ''\<newline>'' \<notin> set p)"
proof -
  let ?qs = "split_on CHR ''\<newline>'' resp"
  have qs: "\<exists>n. 0 < n \<and> n \<le> length ?qs \<and> retriever_queries (events_since s s') = take n ?qs"
    and full: "\<forall>v. res = Inr v \<longrightarrow> retriever_queries (events_since s s') = ?qs"
  proof (atomize (full), cases res)
    case (Inr v)
    from rag_evaluation_Inr [OF run [unfolded Inr]] resp obtain drs where
      d: "length drs = length ?qs" and
      ev: "events_since s s' =
             ChatInvoke llm (question_gen_message nq topic) (Inr resp)
             # concat (map (iteration_events nq) (zip (enumerate 0 ?qs) drs))"
      by auto
    have "retriever_queries (events_since s s') = ?qs"
      by (simp add: ev retriever_queries_iterations map_fst_zip_eq [of drs _ snd] d)
    moreover have "0 < length ?qs" by (simp add: length_split_on)
    ultimately show "(\<exists>n. 0 < n \<and> n \<le> length ?qs \<and> retriever_queries (events_since s s') = take n ?qs)
        \<and> (\<forall>v. res = Inr v \<longrightarrow> retriever_queries (events_since s s') = ?qs)"
      by (auto intro: exI [of _ "length ?qs"])
  next
    case (Inl err)
    from rag_evaluation_Inl [OF run [unfolded Inl]] resp obtain k drs evs where
      k: "k < length ?qs" and d: "length drs = k" and
      ev: "events_since s s' =
             ChatInvoke llm (question_gen_message nq topic) (Inr resp)
             # concat (map (iteration_events nq) (zip (take k (enumerate 0 ?qs)) drs)) @ evs" and
      a: "aborted_iteration (?qs ! k) err evs"
      by auto
    from k d have "map (\<lambda>y. snd (fst y)) (zip (take k (enumerate 0 ?qs)) drs) = take k ?qs"
      by (subst map_fst_zip_eq [of drs _ snd]) (simp_all add: take_map [symmetric])
    then have "retriever_queries (events_since s s') = take (Suc k) ?qs"
      using k by (simp add: ev retriever_queries_iterations retriever_queries_aborted [OF a]
                    take_Suc_conv_app_nth)
    with k show "(\<exists>n. 0 < n \<and> n \<le> length ?qs \<and> retriever_queries (events_since s s') = take n ?qs)
        \<and> (\<forall>v. res = Inr v \<longrightarrow> retriever_queries (events_since s s') = ?qs)"
      by (auto simp: Inl intro: exI [of _ "Suc k"])
  qed
  have err: "events_since s s' \<noteq> [] \<and> event_error (last (events_since s s')) = Some err"
    if "res = Inl err" for err
  proof -
    from rag_evaluation_Inl_last [OF run [unfolded that]] obtain ok final where
      "events_since s s' = ok @ [final]" "event_error final = Some err" by blast
    then show ?thesis by simp
  qed
  show ?thesis
    using qs full err join_split_on [of "CHR ''\<newline>''" resp]
      length_split_on [of "CHR ''\<newline>''" resp] split_on_no_sep [of _ "CHR ''\<newline>''" resp]
    by blast
qed

text \<open>The theorem at two runs asked for 5 questions: the sample run works on the three pieces
  of the text, the empty piece after the last line break included; the run with the strict
  retriever ends with the exception the retriever raised on that empty piece.\<close>

theorem questions_are_newline_split_witness:
  "rag_evaluation sample_env sample_retriever 5 ''climate change'' initial_state
     = (sample_final 5, Inr PyNone)
   \<and> chat sample_env (trace initial_state) llm (question_gen_message 5 ''climate change'')
     = Inr ''Q1\<newline>Q2\<newline>''
   \<and> retriever_queries (events_since initial_state (sample_final 5)) = [''Q1'', ''Q2'', '''']
   \<and> join ''\<newline>'' [''Q1'', ''Q2'', ''''] = ''Q1\<newline>Q2\<newline>''
   \<and> rag_evaluation sample_env strict_retriever 5 ''climate change'' initial_state
     = (strict_final 5, Inl (Raised ''empty query''))
   \<and> last (events_since initial_state (strict_final 5))
     = RetrieverInvoke '''' (Inl (Raised ''empty query''))
   \<and> event_error (last (events_since initial_state (strict_final 5))) = Some (Raised ''empty query'')"
  using questions_are_newline_split [OF sample_run [of 5] sample_chat]
    questions_are_newline_split [OF strict_run [of 5] sample_chat]
  by (simp add: sample_run strict_run sample_chat strict_events_trace strict_last)

subsection \<open>C5: what the rating prompt receives\<close>

text \<open>
  C5. In every run of the retrieval evaluator the chat calls are, in order, the
  question-generation call and then one rating call for each retriever call that returned;
  the rating call for a question receives the evaluation prompt filled with that question
  and with the page contents of the documents retrieved for it, joined by single line
  breaks in the retriever's order. When the run completes, the questions so treated are the
  generated questions, in order.
\<close>

theorem rating_prompt_receives_joined_documents:
  assumes run: "rag_evaluation e retr nq topic s = (s', res)"
  shows "chat_messages (events_since s s') =
           question_gen_message nq topic
           # map (\<lambda>(q, docs). [(User, eval_prompt q (join ''\<newline>'' (map page_content docs)))])
               (retrievals (events_since s s'))
       \<and> (\<forall>v resp. res = Inr v \<longrightarrow>
             chat e (trace s) llm (question_gen_message nq topic) = Inr resp \<longrightarrow>
             map fst (retrievals (events_since s s')) = split_on CHR ''\<newline>'' resp)"
proof (cases res)
  case (Inr v)
  from rag_evaluation_Inr [OF run [unfolded Inr]] obtain resp drs where
    c: "chat e (trace s) llm (question_gen_message nq topic) = Inr resp" and
    d: "length drs = length (split_on CHR ''\<newline>'' resp)" and
    ev: "events_since s s' =
           ChatInvoke llm (question_gen_message nq topic) (Inr resp)
           # concat (map (iteration_events nq) (zip (enumerate 0 (split_on CHR ''\<newline>'' resp)) drs))"
    by blast
  have "map fst (retrievals (events_since s s')) = split_on CHR ''\<newline>'' resp"
    by (simp add: ev retrievals_iterations comp_def map_fst_zip_eq [of drs _ snd] d)
  moreover have "chat_messages (events_since s s') =
      question_gen_message nq topic # map rating_message (retrievals (events_since s s'))"
    by (simp add: ev retrievals_iterations chat_messages_iterations comp_def)
  ultimately show ?thesis using c by (simp add: rating_message_split)
next
  case (Inl err)
  from rag_evaluation_Inl [OF run [unfolded Inl]]
  consider
    (gen) "events_since s s' = [ChatInvoke llm (question_gen_message nq topic) (Inl err)]"
  | (loop) resp k drs evs where
      "events_since s s' =
         ChatInvoke llm (question_gen_message nq topic) (Inr resp)
         # concat (map (iteration_events nq)
             (zip (take k (enumerate 0 (split_on CHR ''\<newline>'' resp))) drs)) @ evs"
      "aborted_iteration (split_on CHR ''\<newline>'' resp ! k) err evs"
    by blast
  then have "chat_messages (events_since s s') =
      question_gen_message nq topic # map rating_message (retrievals (events_since s s'))"
  proof cases
    case gen
    then show ?thesis by (simp add: chat_messages_def retrievals_def)
  next
    case loop
    show ?thesis
      by (simp add: loop(1) retrievals_iterations chat_messages_iterations comp_def
            retrievals_aborted [OF loop(2)])
  qed
  then show ?thesis by (simp add: Inl rating_message_split)
qed

text \<open>The theorem at the sample run, where every question retrieves the documents \<^verbatim>\<open>d1\<close> and
  \<^verbatim>\<open>d2\<close>.\<close>

theorem rating_prompt_receives_joined_documents_witness:
  "rag_evaluation sample_env sample_retriever 5 ''climate change'' initial_state
     = (sample_final 5, Inr PyNone)
   \<and> chat_messages (events_since initial_state (sample_final 5)) =
       [question_gen_message 5 ''climate change'',
        [(User, eval_prompt ''Q1'' ''d1\<newline>d2'')],
        [(User, eval_prompt ''Q2'' ''d1\<newline>d2'')],
        [(User, eval_prompt '''' ''d1\<newline>d2'')]]
   \<and> map fst (retrievals (events_since initial_state (sample_final 5))) = [''Q1'', ''Q2'', '''']"
  using rating_prompt_receives_joined_documents [OF sample_run [of 5]]
  by (simp add: sample_run sample_chat sample_events sample_retrievals sample_docs_def)

subsection \<open>C6: exceptions propagate\<close>

text \<open>
  C6. No operation catches an exception. In a run of \<^verbatim>\<open>rag_evaluation\<close>, a call to the
  retriever or to the chat model that raises is the last event of the run: no further
  retriever call, chat call or printed line follows it, and the run ends with that very
  exception, so no value is returned. In \<^verbatim>\<open>correctness\<close> and in \<^verbatim>\<open>qa_generator\<close> an exception
  raised by the model call is the outcome of the function.
\<close>

theorem exceptions_propagate:
  "(rag_evaluation e retr nq topic s = (s', res) \<longrightarrow>
      (\<forall>pre ev post err. events_since s s' = pre @ ev # post \<and> event_error ev = Some err
          \<longrightarrow> post = [] \<and> res = Inl err))
   \<and> (\<forall>q ref ans err.
         subscript inputs ''question'' = Inr q \<and> subscript ref_outputs ''answer'' = Inr ref
         \<and> subscript outputs ''answer'' = Inr ans
         \<and> chat_structured e tr grader_llm grader_output
             [(System, correctness_prompt), (User, grading_context q ref ans)] = Inl err
         \<longrightarrow> snd (correctness e inputs outputs ref_outputs tr) = Inl err)
   \<and> (\<forall>err. chat_structured e tr qa_llm qa_output
               [(System, instruct_prompt), (User, generation_prompt ctx)] = Inl err
         \<longrightarrow> snd (qa_generator e ctx tr) = Inl err)"
proof (intro conjI impI allI)
  fix pre ev post err
  assume "rag_evaluation e retr nq topic s = (s', res)"
    and "events_since s s' = pre @ ev # post \<and> event_error ev = Some err"
  then show "post = []" and "res = Inl err"
    using rag_evaluation_error_is_last by blast+
next
  fix q ref ans err
  assume "subscript inputs ''question'' = Inr q \<and> subscript ref_outputs ''answer'' = Inr ref
         \<and> subscript outputs ''answer'' = Inr ans
         \<and> chat_structured e tr grader_llm grader_output
             [(System, correctness_prompt), (User, grading_context q ref ans)] = Inl err"
  then show "snd (correctness e inputs outputs ref_outputs tr) = Inl err"
    by (simp add: correctness_def structured_invoke_def Let_def)
next
  fix err
  assume "chat_structured e tr qa_llm qa_output
               [(System, instruct_prompt), (User, generation_prompt ctx)] = Inl err"
  then show "snd (qa_generator e ctx tr) = Inl err"
    by (simp add: qa_generator_def structured_invoke_def Let_def)
qed

text \<open>The theorem at a run in which the retriever raises on the third, empty question, and at
  calls of the two other functions with a model that raises.\<close>

theorem exceptions_propagate_witness:
  "rag_evaluation sample_env strict_retriever 5 ''climate change'' initial_state
     = (strict_final 5, Inl (Raised ''empty query''))
   \<and> events_since initial_state (strict_final 5) =
       butlast (trace (strict_final 5)) @ RetrieverInvoke '''' (Inl (Raised ''empty query'')) # []
   \<and> event_error (RetrieverInvoke '''' (Inl (Raised ''empty query''))) = Some (Raised ''empty query'')
   \<and> chat_structured failing_env [] grader_llm grader_output
        [(System, correctness_prompt),
         (User, grading_context ''What is the capital of France?'' ''Paris''
                  ''The capital of France is Paris.'')] = Inl (Raised ''rate limit'')
   \<and> snd (correctness failing_env sample_inputs sample_outputs sample_ref_outputs [])
       = Inl (Raised ''rate limit'')
   \<and> snd (qa_generator failing_env ''Water boils at 100 degrees at sea level.'' [])
       = Inl (Raised ''rate limit'')"
  using
    exceptions_propagate [where e = sample_env and retr = strict_retriever and nq = 5
      and topic = "''climate change''" and s = initial_state and s' = "strict_final 5"
      and res = "Inl (Raised ''empty query'')"]
    exceptions_propagate [where e = failing_env and inputs = sample_inputs
      and ref_outputs = sample_ref_outputs and outputs = sample_outputs and tr = "[]"
      and ctx = "''Water boils at 100 degrees at sea level.''"]
  by (simp add: strict_run strict_events sample_subscripts failing_env_def)

subsection \<open>C7: the question generator\<close>

text \<open>
  C7. For every context string, \<^verbatim>\<open>qa_generator\<close> adds exactly one event to the trace: a
  call constrained to the structured-output schema \<^verbatim>\<open>QA_generator\<close>, whose fields are
  exactly \<^verbatim>\<open>question\<close> and \<^verbatim>\<open>answer\<close>, with the instruction prompt as system message and
  the generation prompt holding the context as user message. What the call yields is what
  the function returns, unmodified.
\<close>

theorem qa_generator_one_structured_call:
  "qa_generator e context tr =
     (tr @ [StructuredInvoke qa_llm qa_output
              [(System, instruct_prompt), (User, generation_prompt context)]
              (chat_structured e tr qa_llm qa_output
                 [(System, instruct_prompt), (User, generation_prompt context)])],
      chat_structured e tr qa_llm qa_output
        [(System, instruct_prompt), (User, generation_prompt context)])
   \<and> map fst (td_fields (so_schema qa_output)) = [''question'', ''answer'']"
  by (simp add: qa_generator_def structured_invoke_def Let_def qa_output_def QA_generator_def)

subsection \<open>C8: the module-level metric objects\<close>

text \<open>
  C8. The four metric objects bound when \<^verbatim>\<open>evaluation.py\<close> is imported are dead
  configuration. A run of \<^verbatim>\<open>rag_evaluation\<close>, completed or aborted, does not write them (the
  module's globals are afterwards what they were), does not invoke them (none of the events
  it adds to the trace is a measurement by a metric) and does not read them: started with
  any other values for the four names, the run makes the same calls, prints the same lines
  and ends with the same outcome.
\<close>

theorem metrics_untouched:
  assumes run: "rag_evaluation e retr nq topic s = (s', res)"
  shows "globals s' = globals s
       \<and> (\<forall>ev \<in> set (events_since s s'). \<not> is_metric_event ev)
       \<and> (\<forall>g. rag_evaluation e retr nq topic (s\<lparr>globals := g\<rparr>) = (s'\<lparr>globals := g\<rparr>, res))"
proof -
  have "globals s' = globals s \<and> (\<forall>ev \<in> set (events_since s s'). \<not> is_metric_event ev)"
  proof (cases res)
    case (Inr v)
    from rag_evaluation_Inr [OF run [unfolded Inr]] show ?thesis
      by (auto dest: no_metric_iterations)
  next
    case (Inl err)
    from rag_evaluation_Inl [OF run [unfolded Inl]] show ?thesis
      by (auto simp: aborted_iteration_def dest: no_metric_iterations)
  qed
  moreover have "rag_evaluation e retr nq topic (s\<lparr>globals := g\<rparr>) = (s'\<lparr>globals := g\<rparr>, res)" for g
    by (simp add: rag_evaluation_globals run)
  ultimately show ?thesis by blast
qed

text \<open>The theorem at the sample run, started in the state the import of the module leaves,
  and started again with another object bound to \<^verbatim>\<open>correctness_metric\<close>.\<close>

theorem metrics_untouched_witness:
  "rag_evaluation sample_env sample_retriever 5 ''climate change'' initial_state
     = (sample_final 5, Inr PyNone)
   \<and> globals initial_state = module_load
   \<and> globals (sample_final 5) = module_load
   \<and> filter is_metric_event (events_since initial_state (sample_final 5)) = []
   \<and> rag_evaluation sample_env sample_retriever 5 ''climate change''
       (initial_state\<lparr>globals := module_load\<lparr>correctness_metric := FaithfulnessMetric 0 [] False\<rparr>\<rparr>)
     = (sample_final 5\<lparr>globals := module_load\<lparr>correctness_metric := FaithfulnessMetric 0 [] False\<rparr>\<rparr>,
        Inr PyNone)"
  using metrics_untouched [OF sample_run [of 5]]
  by (simp add: sample_run initial_globals filter_empty_conv)

subsection \<open>C9: the results accumulator\<close>

text \<open>
  C9. The local list \<^verbatim>\<open>results\<close> starts empty and is empty after any number \<open>k\<close> of
  completed iterations of the loop (the state after \<open>k\<close> iterations of a run is the outcome
  of the loop on the first \<open>k\<close> questions, by \<open>eval_loop_append\<close>). Each of those
  iterations obtains one rating text from the model and prints it in a line
  \<^verbatim>\<open>Evaluation: ...\<close>; none is stored.
\<close>

theorem results_accumulator_stays_empty:
  assumes run: "eval_loop e retr nq (take k xs) [] s = (s', Inr results)"
  shows "results = []
       \<and> length (chat_answers (events_since s s')) = min k (length xs)
       \<and> (\<forall>r \<in> set (chat_answers (events_since s s')).
             Print (''Evaluation: '' @ r) \<in> set (events_since s s'))"
proof -
  from eval_loop_Inr [OF run] obtain drs where
    d: "length drs = length (take k xs)" and
    t: "trace s' = trace s @ concat (map (iteration_events nq) (zip (take k xs) drs))" and
    r: "results = []"
    by blast
  from t have ev: "events_since s s' = concat (map (iteration_events nq) (zip (take k xs) drs))"
    by (rule events_since_append)
  have "length (chat_answers (events_since s s')) = min k (length xs)"
    using d by (simp add: ev chat_answers_iterations min.commute)
  with r show ?thesis
    unfolding ev using chat_answers_printed by blast
qed

text \<open>The theorem after one iteration of a loop over two questions.\<close>

theorem results_accumulator_stays_empty_witness:
  "eval_loop sample_env sample_retriever 5 (take 1 (enumerate 0 [''Q1'', ''Q2''])) [] initial_state =
     (\<lparr>trace = iteration_events 5 ((0, ''Q1''), (sample_docs, ''rating'')), globals = module_load\<rparr>,
      Inr [])
   \<and> chat_answers (iteration_events 5 ((0, ''Q1''), (sample_docs, ''rating''))) = [''rating'']
   \<and> Print ''Evaluation: rating'' \<in> set (iteration_events 5 ((0, ''Q1''), (sample_docs, ''rating'')))"
  using results_accumulator_stays_empty [OF sample_loop_run]
  by (simp add: sample_body events_since_def initial_trace chat_answers_def)

subsection \<open>C10: the denominator of the progress line\<close>

text \<open>
  C10. In every run, completed or aborted, the lines printed come in groups of five, and
  the first line of the \<open>i\<close>-th group (counted from 0) is
  \<^verbatim>\<open>Evaluated question i+1/num_questions:\<close>: the index counts the segments of the generated
  text that were evaluated, the denominator is the decimal numeral of the requested
  \<^verbatim>\<open>num_questions\<close>. There are at most as many groups as the text has segments, and exactly
  as many when the run completes. So the index passes the denominator when the split has
  more segments than were requested, and stops short of it when the split has fewer.
\<close>

theorem progress_line_uses_requested_count:
  assumes run: "rag_evaluation e retr nq topic s = (s', res)"
  shows "5 dvd length (printed (events_since s s'))
       \<and> (\<forall>i. 5 * i < length (printed (events_since s s')) \<longrightarrow>
             printed (events_since s s') ! (5 * i) =
               ''Evaluated question '' @ str_int (int i + 1) @ ''/'' @ str_int nq @ '':'')
       \<and> decimal_value (str_int nq) = nq
       \<and> (\<forall>resp. chat e (trace s) llm (question_gen_message nq topic) = Inr resp \<longrightarrow>
             length (printed (events_since s s')) \<le> 5 * length (split_on CHR ''\<newline>'' resp)
           \<and> (\<forall>v. res = Inr v \<longrightarrow>
                 length (printed (events_since s s')) = 5 * length (split_on CHR ''\<newline>'' resp)))"
proof -
  let ?f = "\<lambda>y :: (nat \<times> string) \<times> (document list \<times> string).
                       [progress_line nq (fst (fst y)),
                        ''Question: '' @ snd (fst y),
                        ''Context: '' @ join ''\<newline>'' (map page_content (fst (snd y))),
                        ''Evaluation: '' @ snd (snd y),
                        ''-------------------\<newline>'']"
  from rag_evaluation_printed [OF run] obtain ys where
    p: "printed (events_since s s') = concat (map ?f ys)" and
    idx: "\<forall>i < length ys. fst (fst (ys ! i)) = i" and
    len: "\<forall>resp. chat e (trace s) llm (question_gen_message nq topic) = Inr resp \<longrightarrow>
                 length ys \<le> length (split_on CHR ''\<newline>'' resp)
               \<and> (\<forall>v. res = Inr v \<longrightarrow> length ys = length (split_on CHR ''\<newline>'' resp))"
    by blast
  have l: "length (printed (events_since s s')) = 5 * length ys"
    unfolding p by (subst length_concat_blocks) simp_all
  have "printed (events_since s s') ! (5 * i) = progress_line nq i"
    if "5 * i < length (printed (events_since s s'))" for i
  proof -
    from that l have i: "i < length ys" by simp
    then have "concat (map ?f ys) ! (5 * i) = ?f (ys ! i) ! 0"
      by (intro nth_concat_blocks) simp_all
    with i idx show ?thesis by (simp add: p)
  qed
  with l len show ?thesis
    by (simp add: progress_line_def decimal_value_str_int)
qed

text \<open>The theorem at two runs: asked for 2 questions, the sample run evaluates three segments
  and its last progress line reads 3/2; asked for 12 questions, the run with the strict
  retriever prints 1/12 and 2/12 before the retriever raises.\<close>

theorem progress_line_uses_requested_count_witness:
  "rag_evaluation sample_env sample_retriever 2 ''climate change'' initial_state
     = (sample_final 2, Inr PyNone)
   \<and> length (printed (events_since initial_state (sample_final 2))) = 15
   \<and> printed (events_since initial_state (sample_final 2)) ! 0 = ''Evaluated question 1/2:''
   \<and> printed (events_since initial_state (sample_final 2)) ! 5 = ''Evaluated question 2/2:''
   \<and> printed (events_since initial_state (sample_final 2)) ! 10 = ''Evaluated question 3/2:''
   \<and> rag_evaluation sample_env strict_retriever 12 ''climate change'' initial_state
     = (strict_final 12, Inl (Raised ''empty query''))
   \<and> length (printed (events_since initial_state (strict_final 12))) = 10
   \<and> printed (events_since initial_state (strict_final 12)) ! 0 = ''Evaluated question 1/12:''
   \<and> printed (events_since initial_state (strict_final 12)) ! 5 = ''Evaluated question 2/12:''
   \<and> decimal_value ''12'' = 12"
proof -
  note a = progress_line_uses_requested_count [OF sample_run [of 2]]
  note b = progress_line_uses_requested_count [OF strict_run [of 12]]
  note an = a [THEN conjunct2, THEN conjunct1, rule_format]
  note bn = b [THEN conjunct2, THEN conjunct1, rule_format]
  from a have al: "length (printed (events_since initial_state (sample_final 2))) = 15"
    by (simp add: sample_chat)
  have bl: "length (printed (events_since initial_state (strict_final 12))) = 10"
    by (simp add: strict_events_trace strict_printed)
  from b have bd: "decimal_value ''12'' = 12"
    by (simp add: str_int_examples)
  from an [of 0] an [of 1] an [of 2] al bn [of 0] bn [of 1] bl bd show ?thesis
    by (simp add: sample_run strict_run str_int_small str_int_examples)
qed

text \<open>Asked for 5 questions, the same run stops at 3/5.\<close>

lemma sample_run_never_reaches_five:
  "printed (trace (sample_final 5)) ! 10 = ''Evaluated question 3/5:''
   \<and> length (printed (trace (sample_final 5))) = 15"
  by (simp add: sample_final_def printed_def progress_line_def str_int_small)

end
